theory Spec2Isabelle
  imports Main "HOL-Library.Word"
begin

section \<open>Shared helpers: printing a number inside a template string\<close>

text \<open>
  Both services build strings with JavaScript template literals, \<^verbatim>\<open>`${userId}:${action}`\<close>
  and \<^verbatim>\<open>`user_${userId}`\<close>. User ids are Telegram ids: integers, which JavaScript prints
  in plain decimal notation (exact for every integer below \<open>10^21\<close> in absolute value).
\<close>

fun natToString :: "nat \<Rightarrow> string" where
  "natToString n =
     (if n < 10 then [char_of (48 + n)]
      else natToString (n div 10) @ [char_of (48 + n mod 10)])"

declare natToString.simps [simp del]

definition numToString :: "int \<Rightarrow> string" where
  "numToString i = (if i < 0 then CHR ''-'' # natToString (nat (- i)) else natToString (nat i))"

section \<open>RateLimiterService\<close>

record RateLimit =
  rl_userId :: int
  rl_action :: string
  count :: int
  windowStart :: int
  lastAttempt :: int

record RateLimitConfig =
  windowMs :: int
  maxAttempts :: int
  cooldownMs :: "int option"

text \<open>
  The service owns two tables: \<open>attempts\<close>, keyed by the string \<^verbatim>\<open>`${userId}:${action}`\<close>,
  and \<open>configs\<close>, keyed by the action name (\<open>setRateLimit\<close> can change it, so it is part of
  the state). \<open>Date.now()\<close> is the argument \<open>now\<close> of each operation, in milliseconds.
  The lookup \<open>this.configs[action]\<close> is a lookup in that table: action names are command
  names of the bot, not names of members of \<open>Object.prototype\<close>.
\<close>

record RateLimiterService =
  attempts :: "string \<rightharpoonup> RateLimit"
  configs :: "string \<rightharpoonup> RateLimitConfig"

text \<open>The object returned by \<open>canPerformAction\<close>; a field left out of the literal is \<open>None\<close>.\<close>

record ActionCheck =
  allowed :: bool
  remainingAttempts :: "int option"
  resetTime :: "int option"
  cooldownUntil :: "int option"
  message :: "string option"

definition defaultConfigs :: "string \<rightharpoonup> RateLimitConfig" where
  "defaultConfigs =
     [''supply'' \<mapsto> \<lparr>windowMs = 60000, maxAttempts = 3, cooldownMs = Some 30000\<rparr>,
      ''borrow'' \<mapsto> \<lparr>windowMs = 60000, maxAttempts = 3, cooldownMs = Some 30000\<rparr>,
      ''repay'' \<mapsto> \<lparr>windowMs = 60000, maxAttempts = 5, cooldownMs = Some 15000\<rparr>,
      ''redeem'' \<mapsto> \<lparr>windowMs = 60000, maxAttempts = 5, cooldownMs = Some 15000\<rparr>,
      ''claim'' \<mapsto> \<lparr>windowMs = 300000, maxAttempts = 2, cooldownMs = Some 60000\<rparr>,
      ''approve'' \<mapsto> \<lparr>windowMs = 180000, maxAttempts = 3, cooldownMs = Some 30000\<rparr>,
      ''export_private_key'' \<mapsto> \<lparr>windowMs = 300000, maxAttempts = 2, cooldownMs = Some 120000\<rparr>,
      ''export_mnemonic'' \<mapsto> \<lparr>windowMs = 300000, maxAttempts = 2, cooldownMs = Some 120000\<rparr>,
      ''position'' \<mapsto> \<lparr>windowMs = 60000, maxAttempts = 10, cooldownMs = None\<rparr>,
      ''markets'' \<mapsto> \<lparr>windowMs = 60000, maxAttempts = 15, cooldownMs = None\<rparr>,
      ''balance'' \<mapsto> \<lparr>windowMs = 60000, maxAttempts = 10, cooldownMs = None\<rparr>]"

definition newRateLimiterService :: RateLimiterService where
  "newRateLimiterService = \<lparr>attempts = Map.empty, configs = defaultConfigs\<rparr>"

definition attemptKey :: "int \<Rightarrow> string \<Rightarrow> string" where
  "attemptKey userId action = numToString userId @ '':'' @ action"

text \<open>\<open>Math.ceil(x / 1000)\<close> on an integer number of milliseconds.\<close>

definition ceilSeconds :: "int \<Rightarrow> int" where
  "ceilSeconds x = - ((- x) div 1000)"

text \<open>
  The cooldown test \<open>config.cooldownMs && limit.lastAttempt + config.cooldownMs > now\<close>:
  the optional field is falsy when it is absent or \<open>0\<close>. The result is the value of
  \<open>cooldownUntil\<close> when the test holds.
\<close>

definition activeCooldown :: "RateLimitConfig \<Rightarrow> RateLimit \<Rightarrow> int \<Rightarrow> int option" where
  "activeCooldown config limit now =
     (case cooldownMs config of
        None \<Rightarrow> None
      | Some cd \<Rightarrow>
          if cd \<noteq> 0 \<and> lastAttempt limit + cd > now
          then Some (lastAttempt limit + cd) else None)"

text \<open>
  \<open>canPerformAction\<close> is written in state-passing style like every other method, so that
  what it does to the tables is part of its result. The branches follow the source in order.
\<close>

definition canPerformAction ::
  "RateLimiterService \<Rightarrow> int \<Rightarrow> int \<Rightarrow> string \<Rightarrow> ActionCheck \<times> RateLimiterService" where
  "canPerformAction s now userId action =
     (case configs s action of
        None \<Rightarrow>
          (\<lparr>allowed = True, remainingAttempts = None, resetTime = None,
            cooldownUntil = None, message = None\<rparr>, s)
      | Some config \<Rightarrow>
          (case attempts s (attemptKey userId action) of
             None \<Rightarrow>
               (\<lparr>allowed = True, remainingAttempts = Some (maxAttempts config - 1),
                 resetTime = Some (now + windowMs config),
                 cooldownUntil = None, message = None\<rparr>, s)
           | Some limit \<Rightarrow>
               (case activeCooldown config limit now of
                  Some cdUntil \<Rightarrow>
                    (let remainingCooldown = ceilSeconds (cdUntil - now)
                     in (\<lparr>allowed = False, remainingAttempts = None, resetTime = None,
                          cooldownUntil = Some cdUntil,
                          message = Some (''Action blocked. Cooldown active for ''
                            @ numToString remainingCooldown @ '' more seconds.'')\<rparr>, s))
                | None \<Rightarrow>
               if now - windowStart limit > windowMs config then
                 (\<lparr>allowed = True, remainingAttempts = Some (maxAttempts config - 1),
                   resetTime = Some (now + windowMs config),
                   cooldownUntil = None, message = None\<rparr>, s)
               else if count limit \<ge> maxAttempts config then
                 (let rt = windowStart limit + windowMs config;
                      remainingWindow = ceilSeconds (rt - now)
                  in (\<lparr>allowed = False, remainingAttempts = None, resetTime = Some rt,
                       cooldownUntil = None,
                       message = Some (''Rate limit exceeded. Try again in ''
                         @ numToString remainingWindow @ '' seconds.'')\<rparr>, s))
               else
                 (\<lparr>allowed = True,
                   remainingAttempts = Some (maxAttempts config - count limit - 1),
                   resetTime = Some (windowStart limit + windowMs config),
                   cooldownUntil = None, message = None\<rparr>, s))))"

definition recordAttempt ::
  "RateLimiterService \<Rightarrow> int \<Rightarrow> int \<Rightarrow> string \<Rightarrow> RateLimiterService" where
  "recordAttempt s now userId action =
     (case configs s action of
        None \<Rightarrow> s
      | Some config \<Rightarrow>
          (let key = attemptKey userId action;
               fresh = \<lparr>rl_userId = userId, rl_action = action, count = 1,
                         windowStart = now, lastAttempt = now\<rparr>
           in case attempts s key of
                None \<Rightarrow> s\<lparr>attempts := (attempts s)(key \<mapsto> fresh)\<rparr>
              | Some existing \<Rightarrow>
                  if now - windowStart existing > windowMs config
                  then s\<lparr>attempts := (attempts s)(key \<mapsto> fresh)\<rparr>
                  else s\<lparr>attempts := (attempts s)(key \<mapsto>
                         existing\<lparr>count := count existing + 1, lastAttempt := now\<rparr>)\<rparr>))"

definition setRateLimit ::
  "RateLimiterService \<Rightarrow> string \<Rightarrow> RateLimitConfig \<Rightarrow> RateLimiterService" where
  "setRateLimit s action config = s\<lparr>configs := (configs s)(action \<mapsto> config)\<rparr>"

section \<open>WalletEnhancedService\<close>

subsection \<open>Buffers and their hex encoding\<close>

type_synonym byte = "8 word"
type_synonym bytes = "byte list"

definition hexDigit :: "nat \<Rightarrow> char" where
  "hexDigit n = ''0123456789abcdef'' ! n"

definition hexVal :: "char \<Rightarrow> nat option" where
  "hexVal c =
     (let n = (of_char c :: nat)
      in if 48 \<le> n \<and> n \<le> 57 then Some (n - 48)
         else if 97 \<le> n \<and> n \<le> 102 then Some (n - 87)
         else if 65 \<le> n \<and> n \<le> 70 then Some (n - 55)
         else None)"

text \<open>\<open>buf.toString("hex")\<close>: two lower-case digits per byte.\<close>

fun toHex :: "bytes \<Rightarrow> string" where
  "toHex [] = []"
| "toHex (b # bs) = hexDigit (unat b div 16) # hexDigit (unat b mod 16) # toHex bs"

text \<open>
  \<open>Buffer.from(str, "hex")\<close>: decodes pairs of hex digits and stops at the first pair that is
  not one (a trailing single character is dropped).
\<close>

fun fromHex :: "string \<Rightarrow> bytes" where
  "fromHex (c1 # c2 # cs) =
     (case (hexVal c1, hexVal c2) of
        (Some hi, Some lo) \<Rightarrow> word_of_nat (16 * hi + lo) # fromHex cs
      | _ \<Rightarrow> [])"
| "fromHex _ = []"

text \<open>\<open>buf.slice(start, end)\<close> for \<open>0 \<le> start \<le> end\<close>; the end is clamped to the length.\<close>

definition slice :: "bytes \<Rightarrow> nat \<Rightarrow> nat \<Rightarrow> bytes" where
  "slice buf start end = take (end - start) (drop start buf)"

subsection \<open>The platform: crypto primitives, randomness, the wallet generator\<close>

text \<open>
  The service calls Node's \<open>crypto\<close> module. Its primitives are parameters of the model:
  \<^item> \<open>scrypt password salt keylen\<close> is \<open>crypto.scrypt\<close>;
  \<^item> \<open>sha256 str\<close> is \<open>createHash("sha256").update(str).digest()\<close>;
  \<^item> \<open>gcmEncrypt key aad plaintext\<close> is the cipher object made by
    \<open>createCipher("aes-256-gcm", key)\<close> after \<open>setAAD(aad)\<close>, fed the UTF-8 plaintext: it
    gives the ciphertext and the authentication tag;
  \<^item> \<open>gcmDecrypt key aad authTag ciphertext\<close> is the decipher object after \<open>setAAD\<close> and
    \<open>setAuthTag\<close>: the plaintext, or \<open>None\<close> when \<open>setAuthTag\<close> or \<open>final\<close> throws.
\<close>

record crypto =
  scrypt :: "string \<Rightarrow> bytes \<Rightarrow> nat \<Rightarrow> bytes"
  sha256 :: "string \<Rightarrow> bytes"
  gcmEncrypt :: "bytes \<Rightarrow> bytes \<Rightarrow> string \<Rightarrow> bytes \<times> bytes"
  gcmDecrypt :: "bytes \<Rightarrow> bytes \<Rightarrow> bytes \<Rightarrow> bytes \<Rightarrow> string option"

text \<open>
  \<open>crypto.randomBytes(n)\<close> reads the next \<open>n\<close> bytes of an entropy stream and leaves the
  rest for the next call. Every operation that draws randomness takes the stream it draws from.
\<close>

type_synonym rng = "nat \<Rightarrow> byte"

definition randomBytes :: "nat \<Rightarrow> rng \<Rightarrow> bytes \<times> rng" where
  "randomBytes n g = (map g [0..<n], \<lambda>i. g (i + n))"

text \<open>
  \<open>crypto.timingSafeEqual(a, b)\<close> throws when the two buffers differ in length.
\<close>

datatype error = InvalidPassphrase | AuthenticationFailure | UnequalLength

definition timingSafeEqual :: "bytes \<Rightarrow> bytes \<Rightarrow> error + bool" where
  "timingSafeEqual a b = (if length a \<noteq> length b then Inl UnequalLength else Inr (a = b))"

text \<open>What \<open>ethers.Wallet.createRandom()\<close> hands back; the mnemonic may be missing.\<close>

record RandomWallet =
  rw_address :: string
  rw_privateKey :: string
  rw_mnemonicPhrase :: "string option"

subsection \<open>Data model\<close>

record GeneratedWallet =
  gw_address :: string
  gw_privateKey :: string
  gw_mnemonic :: string
  gw_encryptedPrivateKey :: "string option"

record KdfParams =
  kdf_algorithm :: string
  kdf_N :: int
  kdf_r :: int
  kdf_p :: int
  kdf_keylen :: nat

record StoredWallet =
  sw_address :: string
  sw_encryptedPrivateKey :: string
  sw_encryptedMnemonic :: string
  sw_salt :: string
  sw_kdfParams :: KdfParams
  sw_createdAt :: int
  sw_userId :: int
  sw_hasPassphrase :: bool

record UserPassphrase =
  up_userId :: int
  up_hashedPassphrase :: string
  up_salt :: string
  up_createdAt :: int

record WalletEnhancedService =
  wallets :: "int \<rightharpoonup> StoredWallet"
  passphrases :: "int \<rightharpoonup> UserPassphrase"

definition newWalletEnhancedService :: WalletEnhancedService where
  "newWalletEnhancedService = \<lparr>wallets = Map.empty, passphrases = Map.empty\<rparr>"

definition kdfParams :: KdfParams where
  "kdfParams = \<lparr>kdf_algorithm = ''scrypt'', kdf_N = 16384, kdf_r = 8, kdf_p = 1, kdf_keylen = 32\<rparr>"

text \<open>An optional string argument used as a condition: absent and \<open>""\<close> are both falsy.\<close>

definition truthy :: "string option \<Rightarrow> bool" where
  "truthy passphrase = (case passphrase of None \<Rightarrow> False | Some str \<Rightarrow> str \<noteq> [])"

subsection \<open>Operations\<close>

definition generateWallet :: "RandomWallet \<Rightarrow> GeneratedWallet" where
  "generateWallet wallet =
     \<lparr>gw_address = rw_address wallet,
      gw_privateKey = rw_privateKey wallet,
      gw_mnemonic = (case rw_mnemonicPhrase wallet of None \<Rightarrow> [] | Some phrase \<Rightarrow> phrase),
      gw_encryptedPrivateKey = None\<rparr>"

definition setUserPassphrase ::
  "crypto \<Rightarrow> WalletEnhancedService \<Rightarrow> rng \<Rightarrow> int \<Rightarrow> int \<Rightarrow> string \<Rightarrow> WalletEnhancedService" where
  "setUserPassphrase E s g now userId passphrase =
     (let salt = fst (randomBytes 32 g);
          hashedPassphrase = scrypt E passphrase salt 64
      in s\<lparr>passphrases := (passphrases s)(userId \<mapsto>
             \<lparr>up_userId = userId,
              up_hashedPassphrase = toHex hashedPassphrase,
              up_salt = toHex salt,
              up_createdAt = now\<rparr>)\<rparr>)"

definition verifyPassphrase ::
  "crypto \<Rightarrow> WalletEnhancedService \<Rightarrow> int \<Rightarrow> string \<Rightarrow> error + bool" where
  "verifyPassphrase E s userId passphrase =
     (case passphrases s userId of
        None \<Rightarrow> Inr False
      | Some stored \<Rightarrow>
          (let salt = fromHex (up_salt stored);
               hashedInput = scrypt E passphrase salt 64;
               storedHash = fromHex (up_hashedPassphrase stored)
           in timingSafeEqual hashedInput storedHash))"

text \<open>The \<open>else\<close> branch of \<open>deriveKey\<close>: the key that depends on the user id only.\<close>

definition fallbackKey :: "crypto \<Rightarrow> int \<Rightarrow> bytes" where
  "fallbackKey E userId =
     (let salt = sha256 E (''user_'' @ numToString userId @ ''_salt'')
      in scrypt E (''user_'' @ numToString userId) salt (kdf_keylen kdfParams))"

definition deriveKey ::
  "crypto \<Rightarrow> WalletEnhancedService \<Rightarrow> int \<Rightarrow> string option \<Rightarrow> error + bytes" where
  "deriveKey E s userId passphrase =
     (case passphrases s userId of
        None \<Rightarrow> Inr (fallbackKey E userId)
      | Some userPassphrase \<Rightarrow>
          (case passphrase of
             None \<Rightarrow> Inr (fallbackKey E userId)
           | Some pw \<Rightarrow>
               if pw = [] then Inr (fallbackKey E userId)
               else
                 (case verifyPassphrase E s userId pw of
                    Inl e \<Rightarrow> Inl e
                  | Inr isValid \<Rightarrow>
                      if \<not> isValid then Inl InvalidPassphrase
                      else Inr (scrypt E pw (fromHex (up_salt userPassphrase))
                                  (kdf_keylen kdfParams)))))"

record Encrypted =
  encrypted :: string
  enc_salt :: string

definition encryptPrivateKey ::
  "crypto \<Rightarrow> WalletEnhancedService \<Rightarrow> rng \<Rightarrow> string \<Rightarrow> int \<Rightarrow> string option
     \<Rightarrow> error + (Encrypted \<times> rng)" where
  "encryptPrivateKey E s g privateKey userId passphrase =
     (case deriveKey E s userId passphrase of
        Inl e \<Rightarrow> Inl e
      | Inr key \<Rightarrow>
          (let (salt, g1) = randomBytes 16 g;
               (iv, g2) = randomBytes 16 g1;
               (ciphertext, authTag) = gcmEncrypt E key salt privateKey;
               encryptedHex = toHex ciphertext;
               combined = iv @ authTag @ fromHex encryptedHex
           in Inr (\<lparr>encrypted = toHex combined, enc_salt = toHex salt\<rparr>, g2)))"

definition decryptPrivateKey ::
  "crypto \<Rightarrow> WalletEnhancedService \<Rightarrow> string \<Rightarrow> string \<Rightarrow> int \<Rightarrow> string option
     \<Rightarrow> error + string" where
  "decryptPrivateKey E s encryptedData saltHex userId passphrase =
     (case deriveKey E s userId passphrase of
        Inl e \<Rightarrow> Inl e
      | Inr key \<Rightarrow>
          (let combined = fromHex encryptedData;
               iv = slice combined 0 16;
               authTag = slice combined 16 32;
               ciphertext = drop 32 combined
           in case gcmDecrypt E key (fromHex saltHex) authTag ciphertext of
                None \<Rightarrow> Inl AuthenticationFailure
              | Some decrypted \<Rightarrow> Inr decrypted))"

text \<open>
  \<open>createWalletForUser\<close> takes the freshly generated wallet of \<open>ethers\<close>, the entropy stream and
  the clock, and gives the wallet shown to the user with the new state, or the error thrown.
\<close>

definition createWalletForUser ::
  "crypto \<Rightarrow> WalletEnhancedService \<Rightarrow> rng \<Rightarrow> int \<Rightarrow> RandomWallet \<Rightarrow> int \<Rightarrow> string option
     \<Rightarrow> error + (GeneratedWallet \<times> WalletEnhancedService)" where
  "createWalletForUser E s g now random userId passphrase =
     (let wallet = generateWallet random
      in case encryptPrivateKey E s g (gw_privateKey wallet) userId passphrase of
           Inl e \<Rightarrow> Inl e
         | Inr (encPrivateKey, g') \<Rightarrow>
             (case encryptPrivateKey E s g' (gw_mnemonic wallet) userId passphrase of
                Inl e \<Rightarrow> Inl e
              | Inr (encMnemonic, g'') \<Rightarrow>
                  (let storedWallet =
                         \<lparr>sw_address = gw_address wallet,
                          sw_encryptedPrivateKey = encrypted encPrivateKey,
                          sw_encryptedMnemonic = encrypted encMnemonic,
                          sw_salt = enc_salt encPrivateKey,
                          sw_kdfParams = kdfParams,
                          sw_createdAt = now,
                          sw_userId = userId,
                          sw_hasPassphrase = truthy passphrase\<rparr>
                   in Inr (wallet\<lparr>gw_encryptedPrivateKey := Some (encrypted encPrivateKey)\<rparr>,
                           s\<lparr>wallets := (wallets s)(userId \<mapsto> storedWallet)\<rparr>))))"

definition getUserWallet :: "WalletEnhancedService \<Rightarrow> int \<Rightarrow> StoredWallet option" where
  "getUserWallet s userId = wallets s userId"

text \<open>
  \<open>getPrivateKey\<close> and \<open>getMnemonic\<close> return \<open>string | null\<close>: the \<open>catch\<close> turns every
  error thrown while decrypting into \<open>null\<close> (after logging it to the console), the value
  also returned when there is no wallet.
\<close>

definition getPrivateKey ::
  "crypto \<Rightarrow> WalletEnhancedService \<Rightarrow> int \<Rightarrow> string option \<Rightarrow> string option" where
  "getPrivateKey E s userId passphrase =
     (case wallets s userId of
        None \<Rightarrow> None
      | Some wallet \<Rightarrow>
          (case decryptPrivateKey E s (sw_encryptedPrivateKey wallet) (sw_salt wallet)
                  userId passphrase of
             Inl e \<Rightarrow> None
           | Inr decrypted \<Rightarrow> Some decrypted))"

definition getMnemonic ::
  "crypto \<Rightarrow> WalletEnhancedService \<Rightarrow> int \<Rightarrow> string option \<Rightarrow> string option" where
  "getMnemonic E s userId passphrase =
     (case wallets s userId of
        None \<Rightarrow> None
      | Some wallet \<Rightarrow>
          (case decryptPrivateKey E s (sw_encryptedMnemonic wallet) (sw_salt wallet)
                  userId passphrase of
             Inl e \<Rightarrow> None
           | Inr decrypted \<Rightarrow> Some decrypted))"

definition hasWallet :: "WalletEnhancedService \<Rightarrow> int \<Rightarrow> bool" where
  "hasWallet s userId = (wallets s userId \<noteq> None)"

definition hasPassphrase :: "WalletEnhancedService \<Rightarrow> int \<Rightarrow> bool" where
  "hasPassphrase s userId =
     (case wallets s userId of None \<Rightarrow> False | Some wallet \<Rightarrow> sw_hasPassphrase wallet)"

definition removeWallet :: "WalletEnhancedService \<Rightarrow> int \<Rightarrow> bool \<times> WalletEnhancedService" where
  "removeWallet s userId =
     (wallets s userId \<noteq> None,
      s\<lparr>wallets := (wallets s)(userId := None), passphrases := (passphrases s)(userId := None)\<rparr>)"

text \<open>The state a call of \<open>createWalletForUser\<close> leaves: a call that throws stores nothing.\<close>

definition createdState ::
  "crypto \<Rightarrow> WalletEnhancedService \<Rightarrow> rng \<Rightarrow> int \<Rightarrow> RandomWallet \<Rightarrow> int \<Rightarrow> string option
     \<Rightarrow> WalletEnhancedService" where
  "createdState E s g now random userId passphrase =
     (case createWalletForUser E s g now random userId passphrase of
        Inl e \<Rightarrow> s
      | Inr (wallet, s') \<Rightarrow> s')"

text \<open>
  \<open>drawn g k n\<close> is the buffer \<open>randomBytes(n)\<close> returns once \<open>k\<close> bytes of the stream \<open>g\<close> have
  been consumed. \<open>createWalletForUser\<close> draws four times: the salt and the IV of the private-key
  blob (\<open>drawn g 0 16\<close>, \<open>drawn g 16 16\<close>), then the salt and the IV of the mnemonic blob
  (\<open>drawn g 32 16\<close>, \<open>drawn g 48 16\<close>).
\<close>

definition drawn :: "rng \<Rightarrow> nat \<Rightarrow> nat \<Rightarrow> bytes" where
  "drawn g k n = map (\<lambda>i. g (i + k)) [0..<n]"

text \<open>
  The record \<open>createWalletForUser\<close> stores when \<open>deriveKey\<close> gave \<open>key\<close>, written out: each
  blob is the hex form of IV, tag and ciphertext; only the first salt is kept.
\<close>

definition storedWalletOf ::
  "crypto \<Rightarrow> bytes \<Rightarrow> rng \<Rightarrow> int \<Rightarrow> RandomWallet \<Rightarrow> int \<Rightarrow> string option \<Rightarrow> StoredWallet" where
  "storedWalletOf E key g now random userId passphrase =
     \<lparr>sw_address = rw_address random,
      sw_encryptedPrivateKey = toHex (drawn g 16 16
        @ snd (gcmEncrypt E key (drawn g 0 16) (rw_privateKey random))
        @ fst (gcmEncrypt E key (drawn g 0 16) (rw_privateKey random))),
      sw_encryptedMnemonic = toHex (drawn g 48 16
        @ snd (gcmEncrypt E key (drawn g 32 16) (gw_mnemonic (generateWallet random)))
        @ fst (gcmEncrypt E key (drawn g 32 16) (gw_mnemonic (generateWallet random)))),
      sw_salt = toHex (drawn g 0 16),
      sw_kdfParams = kdfParams,
      sw_createdAt = now,
      sw_userId = userId,
      sw_hasPassphrase = truthy passphrase\<rparr>"

subsection \<open>What the service relies on from the crypto primitives\<close>

text \<open>
  AES-GCM opens what it sealed under the same key and associated data, and its tag has the
  default length of 16 bytes (the decrypting side cuts the tag out at bytes 16 to 32).
\<close>

definition gcmRoundTrip :: "crypto \<Rightarrow> bool" where
  "gcmRoundTrip E \<longleftrightarrow>
     (\<forall>key aad plaintext.
        length (snd (gcmEncrypt E key aad plaintext)) = 16 \<and>
        gcmDecrypt E key aad (snd (gcmEncrypt E key aad plaintext))
          (fst (gcmEncrypt E key aad plaintext)) = Some plaintext)"

text \<open>
  The authentication tag is bound to the key and to the associated data: opening under another
  key or other associated data (of the same lengths) fails. This is the idealised reading of
  the tag check, which a real cipher meets up to a negligible probability of forgery.
\<close>

definition gcmAuthentic :: "crypto \<Rightarrow> bool" where
  "gcmAuthentic E \<longleftrightarrow>
     (\<forall>key key' aad aad' plaintext.
        length key' = length key \<and> length aad' = length aad \<and> (key' \<noteq> key \<or> aad' \<noteq> aad) \<longrightarrow>
        gcmDecrypt E key' aad' (snd (gcmEncrypt E key aad plaintext))
          (fst (gcmEncrypt E key aad plaintext)) = None)"

definition scryptLength :: "crypto \<Rightarrow> bool" where
  "scryptLength E \<longleftrightarrow> (\<forall>password salt keylen. length (scrypt E password salt keylen) = keylen)"

subsection \<open>An executable instance of the primitives\<close>

text \<open>
  A small instance of the crypto interface on which the service can be run: the key derivation
  pads or cuts password and salt to the requested length, and the cipher writes key and
  associated data in front of the plaintext and checks them when opening. It has no
  cryptographic strength; it meets the three properties above, and it is used only to
  evaluate the service at concrete inputs.
\<close>

definition byteOfChar :: "char \<Rightarrow> byte" where
  "byteOfChar c = word_of_nat (of_char c)"

definition charOfByte :: "byte \<Rightarrow> char" where
  "charOfByte b = char_of (unat b)"

definition testScrypt :: "string \<Rightarrow> bytes \<Rightarrow> nat \<Rightarrow> bytes" where
  "testScrypt password salt keylen =
     take keylen (map byteOfChar password @ salt @ replicate keylen 0)"

definition testSha256 :: "string \<Rightarrow> bytes" where
  "testSha256 str = take 32 (map byteOfChar str @ replicate 32 0)"

definition testEncrypt :: "bytes \<Rightarrow> bytes \<Rightarrow> string \<Rightarrow> bytes \<times> bytes" where
  "testEncrypt key aad plaintext = (key @ aad @ map byteOfChar plaintext, replicate 16 0)"

definition testDecrypt :: "bytes \<Rightarrow> bytes \<Rightarrow> bytes \<Rightarrow> bytes \<Rightarrow> string option" where
  "testDecrypt key aad authTag ciphertext =
     (if length authTag = 16 \<and> take (length key) ciphertext = key
         \<and> take (length aad) (drop (length key) ciphertext) = aad
      then Some (map charOfByte (drop (length key + length aad) ciphertext))
      else None)"

definition testCrypto :: crypto where
  "testCrypto = \<lparr>scrypt = testScrypt, sha256 = testSha256,
                  gcmEncrypt = testEncrypt, gcmDecrypt = testDecrypt\<rparr>"

text \<open>An entropy stream whose bytes count up, so that successive draws differ.\<close>

definition testRng :: rng where
  "testRng = (\<lambda>i. word_of_nat i)"

definition testWallet :: RandomWallet where
  "testWallet = \<lparr>rw_address = ''0xA1'', rw_privateKey = ''0xk1'',
                  rw_mnemonicPhrase = Some ''abandon ability''\<rparr>"

definition otherWallet :: RandomWallet where
  "otherWallet = \<lparr>rw_address = ''0xB2'', rw_privateKey = ''0xk2'',
                   rw_mnemonicPhrase = Some ''zoo zone''\<rparr>"

section \<open>Properties of the rate limiter\<close>

text \<open>
  C9. \<open>canPerformAction\<close> is a pure read: whatever the state, the user and the action, the
  state after the call is the state before it, so no entry of the attempts table is created,
  deleted or changed.
\<close>

theorem canPerformAction_pure_read:
  "snd (canPerformAction s now userId action) = s"
  by (simp add: canPerformAction_def Let_def split: option.splits)

text \<open>
  C8. With a cooldown of 30000 ms configured for the action, a check made less than 30000 ms
  after a recorded attempt is denied by the cooldown branch (\<open>cooldownUntil\<close> set, the
  "Cooldown active" message), whatever the window length, the maximum and the starting state,
  hence whatever number of attempts remains in the window.
\<close>

theorem cooldown_blocks_check_after_record:
  assumes cfg: "configs s action = Some config"
      and cd: "cooldownMs config = Some 30000"
      and early: "c - t < 30000"
  shows "fst (canPerformAction (recordAttempt s t userId action) c userId action) =
           \<lparr>allowed = False, remainingAttempts = None, resetTime = None,
            cooldownUntil = Some (t + 30000),
            message = Some (''Action blocked. Cooldown active for ''
              @ numToString (ceilSeconds (t + 30000 - c)) @ '' more seconds.'')\<rparr>"
  using assms
  by (simp add: canPerformAction_def recordAttempt_def activeCooldown_def Let_def
      split: option.splits)

theorem cooldown_blocks_check_after_record_witness:
  "configs newRateLimiterService ''supply''
     = Some \<lparr>windowMs = 60000, maxAttempts = 3, cooldownMs = Some 30000\<rparr>
   \<and> cooldownMs \<lparr>windowMs = 60000, maxAttempts = 3, cooldownMs = Some 30000\<rparr> = Some 30000
   \<and> (2000 :: int) - 1000 < 30000
   \<and> fst (canPerformAction (recordAttempt newRateLimiterService 1000 7 ''supply'')
            2000 7 ''supply'') =
        \<lparr>allowed = False, remainingAttempts = None, resetTime = None,
         cooldownUntil = Some 31000,
         message = Some ''Action blocked. Cooldown active for 29 more seconds.''\<rparr>"
proof -
  have cfg: "configs newRateLimiterService ''supply''
     = Some \<lparr>windowMs = 60000, maxAttempts = 3, cooldownMs = Some 30000\<rparr>"
    by (simp add: newRateLimiterService_def defaultConfigs_def)
  have shown: "numToString (ceilSeconds (1000 + 30000 - 2000)) = ''29''"
    by code_simp
  show ?thesis
    using cooldown_blocks_check_after_record [OF cfg, of 2000 1000 7] cfg shown
    by simp
qed

text \<open>
  C7. With \<open>{windowMs: 60000, maxAttempts: 3}\<close> and no cooldown, starting without an entry:
  the first three checks, each followed by a recorded attempt, are allowed as long as they
  fall within 60000 ms of the first recorded attempt \<open>t1\<close>; the fourth check in that window is
  denied by the rate-limit branch; a check more than 60000 ms after \<open>t1\<close> is allowed again.
\<close>

theorem window_of_three_per_minute:
  fixes s :: RateLimiterService and t1 t2 t3 userId :: int and action :: string
  defines "s1 \<equiv> recordAttempt s t1 userId action"
  defines "s2 \<equiv> recordAttempt s1 t2 userId action"
  defines "s3 \<equiv> recordAttempt s2 t3 userId action"
  assumes cfg: "configs s action = Some \<lparr>windowMs = 60000, maxAttempts = 3, cooldownMs = None\<rparr>"
      and fresh: "attempts s (attemptKey userId action) = None"
      and within: "t2 - t1 \<le> 60000" "t3 - t1 \<le> 60000"
                  "c2 - t1 \<le> 60000" "c3 - t1 \<le> 60000" "c4 - t1 \<le> 60000"
      and after: "c5 - t1 > 60000"
  shows "fst (canPerformAction s c1 userId action) =
           \<lparr>allowed = True, remainingAttempts = Some 2, resetTime = Some (c1 + 60000),
            cooldownUntil = None, message = None\<rparr>
       \<and> fst (canPerformAction s1 c2 userId action) =
           \<lparr>allowed = True, remainingAttempts = Some 1, resetTime = Some (t1 + 60000),
            cooldownUntil = None, message = None\<rparr>
       \<and> fst (canPerformAction s2 c3 userId action) =
           \<lparr>allowed = True, remainingAttempts = Some 0, resetTime = Some (t1 + 60000),
            cooldownUntil = None, message = None\<rparr>
       \<and> fst (canPerformAction s3 c4 userId action) =
           \<lparr>allowed = False, remainingAttempts = None, resetTime = Some (t1 + 60000),
            cooldownUntil = None,
            message = Some (''Rate limit exceeded. Try again in ''
              @ numToString (ceilSeconds (t1 + 60000 - c4)) @ '' seconds.'')\<rparr>
       \<and> fst (canPerformAction s3 c5 userId action) =
           \<lparr>allowed = True, remainingAttempts = Some 2, resetTime = Some (c5 + 60000),
            cooldownUntil = None, message = None\<rparr>"
  using cfg fresh within after unfolding s1_def s2_def s3_def
  by (simp add: canPerformAction_def recordAttempt_def activeCooldown_def Let_def)

theorem window_of_three_per_minute_witness:
  "configs (setRateLimit newRateLimiterService ''quote''
       \<lparr>windowMs = 60000, maxAttempts = 3, cooldownMs = None\<rparr>) ''quote''
     = Some \<lparr>windowMs = 60000, maxAttempts = 3, cooldownMs = None\<rparr>
   \<and> attempts (setRateLimit newRateLimiterService ''quote''
       \<lparr>windowMs = 60000, maxAttempts = 3, cooldownMs = None\<rparr>) (attemptKey 7 ''quote'') = None
   \<and> (2000 :: int) - 1000 \<le> 60000 \<and> (3000 :: int) - 1000 \<le> 60000
   \<and> (1500 :: int) - 1000 \<le> 60000 \<and> (2500 :: int) - 1000 \<le> 60000
   \<and> (3500 :: int) - 1000 \<le> 60000 \<and> (61001 :: int) - 1000 > 60000
   \<and> fst (canPerformAction
         (recordAttempt (recordAttempt (recordAttempt
            (setRateLimit newRateLimiterService ''quote''
               \<lparr>windowMs = 60000, maxAttempts = 3, cooldownMs = None\<rparr>)
            1000 7 ''quote'') 2000 7 ''quote'') 3000 7 ''quote'')
         3500 7 ''quote'') =
       \<lparr>allowed = False, remainingAttempts = None, resetTime = Some 61000,
        cooldownUntil = None,
        message = Some ''Rate limit exceeded. Try again in 58 seconds.''\<rparr>
   \<and> allowed (fst (canPerformAction
         (recordAttempt (recordAttempt (recordAttempt
            (setRateLimit newRateLimiterService ''quote''
               \<lparr>windowMs = 60000, maxAttempts = 3, cooldownMs = None\<rparr>)
            1000 7 ''quote'') 2000 7 ''quote'') 3000 7 ''quote'')
         61001 7 ''quote''))"
proof -
  let ?s = "setRateLimit newRateLimiterService ''quote''
              \<lparr>windowMs = 60000, maxAttempts = 3, cooldownMs = None\<rparr>"
  have cfg: "configs ?s ''quote'' = Some \<lparr>windowMs = 60000, maxAttempts = 3, cooldownMs = None\<rparr>"
    by (simp add: setRateLimit_def)
  have fresh: "attempts ?s (attemptKey 7 ''quote'') = None"
    by (simp add: setRateLimit_def newRateLimiterService_def)
  have shown: "numToString (ceilSeconds (1000 + 60000 - 3500)) = ''58''"
    by code_simp
  have w: "(2000 :: int) - 1000 \<le> 60000" "(3000 :: int) - 1000 \<le> 60000"
    "(1500 :: int) - 1000 \<le> 60000" "(2500 :: int) - 1000 \<le> 60000"
    "(3500 :: int) - 1000 \<le> 60000" "(61001 :: int) - 1000 > 60000"
    by simp_all
  show ?thesis
    using window_of_three_per_minute [OF cfg fresh w, of 500] cfg fresh shown
    by simp
qed

section \<open>Properties of the wallet service\<close>

subsection \<open>Hex encoding and random draws\<close>

lemma hexVal_hexDigit: "n < 16 \<Longrightarrow> hexVal (hexDigit n) = Some n"
proof -
  assume "n < 16"
  then have "n \<in> set [0..<16]" by simp
  moreover have "\<forall>k \<in> set [0..<16]. hexVal (hexDigit k) = Some k"
    by code_simp
  ultimately show ?thesis by blast
qed

lemma fromHex_toHex: "fromHex (toHex bs) = bs"
proof (induction bs)
  case Nil
  show ?case by simp
next
  case (Cons b bs)
  have "unat b < 2 ^ LENGTH(8)"
    by (rule unsigned_less)
  then have "unat b < 256"
    by simp
  then have hi: "unat b div 16 < 16"
    by arith
  have "word_of_nat (16 * (unat b div 16) + unat b mod 16) = b"
    by simp
  with hi Cons show ?case
    by (simp add: hexVal_hexDigit)
qed

lemma randomBytes_shifted:
  "randomBytes n (\<lambda>i. g (i + k)) = (drawn g k n, \<lambda>i. g (i + (k + n)))"
  by (simp add: randomBytes_def drawn_def ac_simps)

lemma randomBytes_drawn: "randomBytes n g = (drawn g 0 n, \<lambda>i. g (i + n))"
  by (simp add: randomBytes_def drawn_def)

lemma length_drawn: "length (drawn g k n) = n"
  by (simp add: drawn_def)

lemma deriveKey_fallback:
  "passphrases s userId = None \<or> \<not> truthy passphrase
   \<Longrightarrow> deriveKey E s userId passphrase = Inr (fallbackKey E userId)"
  by (auto simp: deriveKey_def truthy_def split: option.splits)

lemma encryptPrivateKey_shifted:
  assumes "deriveKey E s userId passphrase = Inr key"
  shows "encryptPrivateKey E s (\<lambda>i. g (i + k)) plaintext userId passphrase =
           Inr (\<lparr>encrypted = toHex (drawn g (k + 16) 16
                    @ snd (gcmEncrypt E key (drawn g k 16) plaintext)
                    @ fst (gcmEncrypt E key (drawn g k 16) plaintext)),
                 enc_salt = toHex (drawn g k 16)\<rparr>,
                \<lambda>i. g (i + (k + 32)))"
proof -
  have first: "randomBytes 16 (\<lambda>i. g (i + k)) = (drawn g k 16, \<lambda>i. g (i + (k + 16)))"
    by (rule randomBytes_shifted)
  have second: "randomBytes 16 (\<lambda>i. g (i + (k + 16))) = (drawn g (k + 16) 16, \<lambda>i. g (i + (k + 32)))"
    using randomBytes_shifted [of 16 g "k + 16"] by (simp add: add.assoc)
  show ?thesis
    by (simp add: encryptPrivateKey_def assms first second Let_def fromHex_toHex split_def)
qed

lemma encryptPrivateKey_Inl:
  "deriveKey E s userId passphrase = Inl e
   \<Longrightarrow> encryptPrivateKey E s g plaintext userId passphrase = Inl e"
  by (simp add: encryptPrivateKey_def)

lemma decryptPrivateKey_sealed:
  assumes "deriveKey E s userId passphrase = Inr key"
      and "length iv = 16" and "length authTag = 16"
  shows "decryptPrivateKey E s (toHex (iv @ authTag @ ciphertext)) (toHex salt) userId passphrase =
           (case gcmDecrypt E key salt authTag ciphertext of
              None \<Rightarrow> Inl AuthenticationFailure
            | Some decrypted \<Rightarrow> Inr decrypted)"
  using assms
  by (simp add: decryptPrivateKey_def Let_def fromHex_toHex slice_def)

lemma decryptPrivateKey_Inl:
  "deriveKey E s userId passphrase = Inl e
   \<Longrightarrow> decryptPrivateKey E s blob saltHex userId passphrase = Inl e"
  by (simp add: decryptPrivateKey_def)

lemma deriveKey_same_passphrases:
  assumes "passphrases s' = passphrases s"
  shows "deriveKey E s' userId passphrase = deriveKey E s userId passphrase"
proof -
  have same: "verifyPassphrase E s' userId = verifyPassphrase E s userId"
    by (rule ext) (simp add: verifyPassphrase_def assms)
  show ?thesis
    unfolding deriveKey_def assms same by (rule refl)
qed

lemma generateWallet_fields:
  "gw_address (generateWallet random) = rw_address random"
  "gw_privateKey (generateWallet random) = rw_privateKey random"
  by (simp_all add: generateWallet_def)

lemma createWalletForUser_Inr:
  assumes "deriveKey E s userId passphrase = Inr key"
  shows "createWalletForUser E s g now random userId passphrase =
           Inr (generateWallet random
                  \<lparr>gw_encryptedPrivateKey :=
                     Some (sw_encryptedPrivateKey
                       (storedWalletOf E key g now random userId passphrase))\<rparr>,
                s\<lparr>wallets := (wallets s)(userId \<mapsto>
                     storedWalletOf E key g now random userId passphrase)\<rparr>)"
proof -
  have first: "encryptPrivateKey E s g (rw_privateKey random) userId passphrase =
      Inr (\<lparr>encrypted = toHex (drawn g 16 16
                    @ snd (gcmEncrypt E key (drawn g 0 16) (rw_privateKey random))
                    @ fst (gcmEncrypt E key (drawn g 0 16) (rw_privateKey random))),
                 enc_salt = toHex (drawn g 0 16)\<rparr>,
                \<lambda>i. g (i + 32))"
    using encryptPrivateKey_shifted [OF assms, of g 0 "rw_privateKey random"]
    by simp
  have second: "encryptPrivateKey E s (\<lambda>i. g (i + 32)) (gw_mnemonic (generateWallet random)) userId passphrase =
      Inr (\<lparr>encrypted = toHex (drawn g 48 16
                    @ snd (gcmEncrypt E key (drawn g 32 16) (gw_mnemonic (generateWallet random)))
                    @ fst (gcmEncrypt E key (drawn g 32 16) (gw_mnemonic (generateWallet random)))),
                 enc_salt = toHex (drawn g 32 16)\<rparr>,
                \<lambda>i. g (i + 64))"
    using encryptPrivateKey_shifted [OF assms, of g 32 "gw_mnemonic (generateWallet random)"]
    by simp
  show ?thesis
    by (simp add: createWalletForUser_def Let_def first second storedWalletOf_def
        generateWallet_fields)
qed

lemma createWalletForUser_Inl:
  assumes "deriveKey E s userId passphrase = Inl e"
  shows "createWalletForUser E s g now random userId passphrase = Inl e"
  by (simp add: createWalletForUser_def Let_def encryptPrivateKey_Inl [OF assms])



subsection \<open>The executable instance meets the assumptions on the primitives\<close>

lemma charOfByte_byteOfChar: "charOfByte (byteOfChar c) = c"
proof -
  have "(of_char c :: nat) < 256"
    by (rule nat_of_char_less_256)
  then have "unat (word_of_nat (of_char c) :: byte) = of_char c"
    by (simp add: unat_of_nat)
  then show ?thesis
    by (simp add: charOfByte_def byteOfChar_def)
qed

lemma testCrypto_roundTrip: "gcmRoundTrip testCrypto"
  by (simp add: gcmRoundTrip_def testCrypto_def testEncrypt_def testDecrypt_def
      comp_def charOfByte_byteOfChar)

lemma testDecrypt_other:
  assumes "length key' = length key" and "length aad' = length aad"
      and "key' \<noteq> key \<or> aad' \<noteq> aad"
  shows "testDecrypt key' aad' (snd (testEncrypt key aad plaintext))
           (fst (testEncrypt key aad plaintext)) = None"
proof -
  let ?ct = "key @ aad @ map byteOfChar plaintext"
  have k: "take (length key') ?ct = key"
    using assms(1) by simp
  have a: "take (length aad') (drop (length key') ?ct) = aad"
    using assms(1,2) by simp
  have "\<not> (key = key' \<and> aad = aad')"
    using assms(3) by blast
  then show ?thesis
    unfolding testDecrypt_def testEncrypt_def fst_conv snd_conv k a
    by simp
qed

lemma testCrypto_authentic: "gcmAuthentic testCrypto"
  by (simp add: gcmAuthentic_def testCrypto_def testDecrypt_other)

lemma testCrypto_scryptLength: "scryptLength testCrypto"
  by (simp add: scryptLength_def testCrypto_def testScrypt_def del: take_append)

subsection \<open>The passphrase store\<close>

lemma test_guess_hash_differs:
  "scrypt testCrypto ''guess'' (drawn testRng 0 32) 64
     \<noteq> scrypt testCrypto ''correct horse battery staple'' (drawn testRng 0 32) 64"
  by code_simp

text \<open>
  C10. \<open>verifyPassphrase\<close> fails closed: without a passphrase record it returns \<open>false\<close>
  for every candidate. \<open>setUserPassphrase(userId, pw)\<close> stores the hex forms of the fresh
  salt and of the 64-byte hash of \<open>pw\<close> under that salt; afterwards \<open>verifyPassphrase\<close>, for
  every candidate, re-derives the candidate's hash under the stored salt and compares it with
  the stored hash by \<open>timingSafeEqual\<close>. So it returns \<open>true\<close> for \<open>pw\<close> itself, and, when
  \<open>scrypt\<close> returns the length asked for, it returns exactly whether the two hashes are equal.
  This holds for every previous state, entropy stream, clock value and key derivation function.
\<close>

theorem verifyPassphrase_compares_hashes:
  "(passphrases s userId = None \<longrightarrow> verifyPassphrase E s userId candidate = Inr False)
   \<and> map_option up_salt (passphrases (setUserPassphrase E s g now userId pw) userId)
       = Some (toHex (drawn g 0 32))
   \<and> map_option up_hashedPassphrase (passphrases (setUserPassphrase E s g now userId pw) userId)
       = Some (toHex (scrypt E pw (drawn g 0 32) 64))
   \<and> verifyPassphrase E (setUserPassphrase E s g now userId pw) userId candidate
       = timingSafeEqual (scrypt E candidate (drawn g 0 32) 64) (scrypt E pw (drawn g 0 32) 64)
   \<and> verifyPassphrase E (setUserPassphrase E s g now userId pw) userId pw = Inr True
   \<and> (scryptLength E \<longrightarrow>
         verifyPassphrase E (setUserPassphrase E s g now userId pw) userId candidate
           = Inr (scrypt E candidate (drawn g 0 32) 64 = scrypt E pw (drawn g 0 32) 64))"
proof -
  have absent: "passphrases s userId = None \<longrightarrow> verifyPassphrase E s userId candidate = Inr False"
    by (simp add: verifyPassphrase_def)
  have salt: "map_option up_salt (passphrases (setUserPassphrase E s g now userId pw) userId)
       = Some (toHex (drawn g 0 32))"
    and hash: "map_option up_hashedPassphrase
         (passphrases (setUserPassphrase E s g now userId pw) userId)
       = Some (toHex (scrypt E pw (drawn g 0 32) 64))"
    by (simp_all add: setUserPassphrase_def randomBytes_drawn Let_def)
  have compare: "verifyPassphrase E (setUserPassphrase E s g now userId pw) userId c
       = timingSafeEqual (scrypt E c (drawn g 0 32) 64) (scrypt E pw (drawn g 0 32) 64)" for c
    by (simp add: verifyPassphrase_def setUserPassphrase_def randomBytes_drawn Let_def
        fromHex_toHex)
  have same: "verifyPassphrase E (setUserPassphrase E s g now userId pw) userId pw = Inr True"
    by (simp add: compare timingSafeEqual_def)
  have sized: "scryptLength E \<longrightarrow>
         verifyPassphrase E (setUserPassphrase E s g now userId pw) userId candidate
           = Inr (scrypt E candidate (drawn g 0 32) 64 = scrypt E pw (drawn g 0 32) 64)"
    by (simp add: compare timingSafeEqual_def scryptLength_def)
  from absent salt hash compare [of candidate] same sized show ?thesis
    by (intro conjI)
qed

theorem verifyPassphrase_compares_hashes_witness:
  "passphrases newWalletEnhancedService 1 = None \<and> scryptLength testCrypto
   \<and> verifyPassphrase testCrypto newWalletEnhancedService 1 ''guess'' = Inr False
   \<and> verifyPassphrase testCrypto
        (setUserPassphrase testCrypto newWalletEnhancedService testRng 5 1
           ''correct horse battery staple'')
        1 ''correct horse battery staple'' = Inr True
   \<and> verifyPassphrase testCrypto
        (setUserPassphrase testCrypto newWalletEnhancedService testRng 5 1
           ''correct horse battery staple'')
        1 ''guess'' = Inr False"
proof -
  have absent: "passphrases newWalletEnhancedService 1 = None"
    by (simp add: newWalletEnhancedService_def)
  note at_guess = verifyPassphrase_compares_hashes [of newWalletEnhancedService 1 testCrypto
      "''guess''" testRng 5 "''correct horse battery staple''"]
  have closed: "verifyPassphrase testCrypto newWalletEnhancedService 1 ''guess'' = Inr False"
    using at_guess absent by blast
  have accepted: "verifyPassphrase testCrypto
        (setUserPassphrase testCrypto newWalletEnhancedService testRng 5 1
           ''correct horse battery staple'')
        1 ''correct horse battery staple'' = Inr True"
    using at_guess by blast
  have "verifyPassphrase testCrypto
        (setUserPassphrase testCrypto newWalletEnhancedService testRng 5 1
           ''correct horse battery staple'')
        1 ''guess''
      = Inr (scrypt testCrypto ''guess'' (drawn testRng 0 32) 64
             = scrypt testCrypto ''correct horse battery staple'' (drawn testRng 0 32) 64)"
    using at_guess testCrypto_scryptLength by blast
  then have rejected: "verifyPassphrase testCrypto
        (setUserPassphrase testCrypto newWalletEnhancedService testRng 5 1
           ''correct horse battery staple'')
        1 ''guess'' = Inr False"
    using test_guess_hash_differs by (simp only: simp_thms)
  from absent testCrypto_scryptLength closed accepted rejected show ?thesis
    by (intro conjI)
qed

subsection \<open>What createWalletForUser stores and what can be opened again\<close>

lemma getPrivateKey_after_create:
  assumes rt: "gcmRoundTrip E"
      and key: "deriveKey E s userId passphrase = Inr key"
      and key': "deriveKey E s userId passphrase' = Inr key"
  shows "getPrivateKey E (createdState E s g now random userId passphrase) userId passphrase'
           = Some (rw_privateKey random)"
proof -
  let ?w = "storedWalletOf E key g now random userId passphrase"
  let ?s' = "s\<lparr>wallets := (wallets s)(userId \<mapsto> ?w)\<rparr>"
  let ?ct = "fst (gcmEncrypt E key (drawn g 0 16) (rw_privateKey random))"
  let ?tag = "snd (gcmEncrypt E key (drawn g 0 16) (rw_privateKey random))"
  have st: "createdState E s g now random userId passphrase = ?s'"
    by (simp add: createdState_def createWalletForUser_Inr [OF key])
  have "passphrases ?s' = passphrases s"
    by simp
  then have k: "deriveKey E ?s' userId passphrase' = Inr key"
    using key' by (simp only: deriveKey_same_passphrases [of ?s' s])
  have tag: "length ?tag = 16"
    using rt by (simp add: gcmRoundTrip_def)
  have opened: "gcmDecrypt E key (drawn g 0 16) ?tag ?ct = Some (rw_privateKey random)"
    using rt by (simp add: gcmRoundTrip_def)
  have blob: "sw_encryptedPrivateKey ?w = toHex (drawn g 16 16 @ ?tag @ ?ct)"
    and salt: "sw_salt ?w = toHex (drawn g 0 16)"
    by (simp_all add: storedWalletOf_def)
  have "decryptPrivateKey E ?s' (sw_encryptedPrivateKey ?w) (sw_salt ?w) userId passphrase'
          = Inr (rw_privateKey random)"
    unfolding blob salt
    using decryptPrivateKey_sealed [OF k length_drawn tag, of g 16 ?ct "drawn g 0 16"] opened
    by simp
  then show ?thesis
    unfolding st by (simp add: getPrivateKey_def)
qed

lemma createdState_Inr:
  "deriveKey E s userId passphrase = Inr key
   \<Longrightarrow> createdState E s g now random userId passphrase =
         s\<lparr>wallets := (wallets s)(userId \<mapsto>
              storedWalletOf E key g now random userId passphrase)\<rparr>"
  by (simp add: createdState_def createWalletForUser_Inr)

lemma createWalletForUser_state:
  "createWalletForUser E s g now random userId passphrase = Inr (wallet, s')
   \<Longrightarrow> createdState E s g now random userId passphrase = s'"
  by (simp add: createdState_def)

lemma createWalletForUser_succeeds_iff:
  "createWalletForUser E s g now random userId passphrase = Inr (wallet, s')
   \<Longrightarrow> \<exists>key. deriveKey E s userId passphrase = Inr key"
  by (cases "deriveKey E s userId passphrase") (simp_all add: createWalletForUser_Inl)

lemma deriveKey_length:
  assumes "scryptLength E" and "deriveKey E s userId passphrase = Inr key"
  shows "length key = 32"
  using assms
  by (auto simp: deriveKey_def fallbackKey_def scryptLength_def kdfParams_def Let_def
      split: option.splits if_splits sum.splits)

lemma deriveKey_after_setUserPassphrase:
  assumes "pw \<noteq> []"
  shows "deriveKey E (setUserPassphrase E s g now userId pw) userId (Some pw)
           = Inr (scrypt E pw (drawn g 0 32) 32)"
proof -
  have "verifyPassphrase E (setUserPassphrase E s g now userId pw) userId pw = Inr True"
    by (simp add: verifyPassphrase_def setUserPassphrase_def timingSafeEqual_def Let_def
        fromHex_toHex)
  then show ?thesis
    using assms
    by (simp add: deriveKey_def setUserPassphrase_def randomBytes_drawn Let_def fromHex_toHex
        kdfParams_def)
qed

subsection \<open>Creating a wallet and reading the private key back\<close>

text \<open>
  C6. A user who creates a wallet without a passphrase gets a record with
  \<open>hasPassphrase = false\<close>, and \<open>getPrivateKey\<close> without a passphrase then returns the
  private key that creation returned: both calls derive the user-id fallback key, and the blob
  is opened under the salt it was sealed with. This holds in every state of the service (also
  for a user who has a passphrase record), for every entropy stream and generated wallet, given
  that the cipher opens what it sealed.
\<close>

theorem create_without_passphrase_round_trip:
  assumes "gcmRoundTrip E"
  shows "\<exists>wallet s'.
           createWalletForUser E s g now random userId None = Inr (wallet, s')
         \<and> gw_privateKey wallet = rw_privateKey random
         \<and> map_option sw_hasPassphrase (getUserWallet s' userId) = Some False
         \<and> getPrivateKey E s' userId None = Some (gw_privateKey wallet)"
proof -
  have key: "deriveKey E s userId None = Inr (fallbackKey E userId)"
    by (simp add: deriveKey_fallback truthy_def)
  let ?w = "storedWalletOf E (fallbackKey E userId) g now random userId None"
  let ?s' = "s\<lparr>wallets := (wallets s)(userId \<mapsto> ?w)\<rparr>"
  have "getPrivateKey E (createdState E s g now random userId None) userId None
          = Some (rw_privateKey random)"
    using assms key key by (rule getPrivateKey_after_create)
  then have "getPrivateKey E ?s' userId None = Some (rw_privateKey random)"
    by (simp add: createdState_Inr [OF key])
  moreover have "map_option sw_hasPassphrase (getUserWallet ?s' userId) = Some False"
    by (simp add: getUserWallet_def storedWalletOf_def truthy_def)
  ultimately show ?thesis
    by (simp add: createWalletForUser_Inr [OF key] generateWallet_fields)
qed

theorem create_without_passphrase_round_trip_witness:
  "gcmRoundTrip testCrypto
   \<and> (\<exists>wallet s'.
         createWalletForUser testCrypto newWalletEnhancedService testRng 5 testWallet 1 None
           = Inr (wallet, s')
       \<and> gw_privateKey wallet = rw_privateKey testWallet
       \<and> map_option sw_hasPassphrase (getUserWallet s' 1) = Some False
       \<and> getPrivateKey testCrypto s' 1 None = Some (gw_privateKey wallet))"
  using create_without_passphrase_round_trip [OF testCrypto_roundTrip,
      of newWalletEnhancedService testRng 5 testWallet 1] testCrypto_roundTrip
  by simp

text \<open>
  C5. A passphrase argument given to \<open>createWalletForUser\<close> for a user without a passphrase
  record is not used: \<open>deriveKey\<close> takes the fallback branch, the stored blobs are those sealed
  under the fallback key (\<open>storedWalletOf\<close> at \<open>fallbackKey\<close>), and \<open>getPrivateKey\<close> without
  a passphrase returns the plaintext private key.
\<close>

theorem passphrase_without_record_uses_fallback_key:
  assumes norec: "passphrases s userId = None" and rt: "gcmRoundTrip E"
  shows "\<exists>wallet s'.
           createWalletForUser E s g now random userId (Some pw) = Inr (wallet, s')
         \<and> wallets s' userId =
             Some (storedWalletOf E (fallbackKey E userId) g now random userId (Some pw))
         \<and> gw_privateKey wallet = rw_privateKey random
         \<and> getPrivateKey E s' userId None = Some (rw_privateKey random)"
proof -
  have key: "deriveKey E s userId (Some pw) = Inr (fallbackKey E userId)"
    using norec by (simp add: deriveKey_fallback)
  have key': "deriveKey E s userId None = Inr (fallbackKey E userId)"
    using norec by (simp add: deriveKey_fallback)
  let ?w = "storedWalletOf E (fallbackKey E userId) g now random userId (Some pw)"
  let ?s' = "s\<lparr>wallets := (wallets s)(userId \<mapsto> ?w)\<rparr>"
  have "getPrivateKey E (createdState E s g now random userId (Some pw)) userId None
          = Some (rw_privateKey random)"
    using rt key key' by (rule getPrivateKey_after_create)
  then have "getPrivateKey E ?s' userId None = Some (rw_privateKey random)"
    by (simp add: createdState_Inr [OF key])
  then show ?thesis
    by (simp add: createWalletForUser_Inr [OF key] generateWallet_fields)
qed

theorem passphrase_without_record_uses_fallback_key_witness:
  "passphrases newWalletEnhancedService 1 = None \<and> gcmRoundTrip testCrypto
   \<and> (\<exists>wallet s'.
         createWalletForUser testCrypto newWalletEnhancedService testRng 5 testWallet 1
           (Some ''hunter22'') = Inr (wallet, s')
       \<and> wallets s' 1 =
           Some (storedWalletOf testCrypto (fallbackKey testCrypto 1) testRng 5 testWallet 1
                   (Some ''hunter22''))
       \<and> gw_privateKey wallet = rw_privateKey testWallet
       \<and> getPrivateKey testCrypto s' 1 None = Some (rw_privateKey testWallet))"
proof -
  have norec: "passphrases newWalletEnhancedService 1 = None"
    by (simp add: newWalletEnhancedService_def)
  show ?thesis
    using passphrase_without_record_uses_fallback_key [OF norec testCrypto_roundTrip,
        of testRng 5 testWallet "''hunter22''"] norec testCrypto_roundTrip
    by simp
qed

subsection \<open>A second wallet for the same user\<close>

text \<open>
  C1 as stated does not hold: \<open>createWalletForUser\<close> has no check for an existing record.
  A second call for user 1 returns a wallet, not an error, and the stored address changes
  from that of the first generated wallet to that of the second.
\<close>

theorem createWalletForUser_second_call_counterexample:
  "map_option sw_address
     (wallets (createdState testCrypto newWalletEnhancedService testRng 5 testWallet 1 None) 1)
     = Some ''0xA1''
   \<and> \<not> isl (createWalletForUser testCrypto
              (createdState testCrypto newWalletEnhancedService testRng 5 testWallet 1 None)
              testRng 9 otherWallet 1 None)
   \<and> map_option sw_address
       (wallets (createdState testCrypto
                  (createdState testCrypto newWalletEnhancedService testRng 5 testWallet 1 None)
                  testRng 9 otherWallet 1 None) 1)
     = Some ''0xB2''"
proof -
  let ?s1 = "createdState testCrypto newWalletEnhancedService testRng 5 testWallet 1 None"
  have k0: "deriveKey testCrypto newWalletEnhancedService 1 None = Inr (fallbackKey testCrypto 1)"
    by (simp add: deriveKey_fallback truthy_def)
  have k1: "deriveKey testCrypto ?s1 1 None = Inr (fallbackKey testCrypto 1)"
    by (simp add: deriveKey_fallback truthy_def)
  have first: "map_option sw_address (wallets ?s1 1) = Some ''0xA1''"
    by (simp add: createdState_Inr [OF k0] storedWalletOf_def testWallet_def)
  have again: "\<not> isl (createWalletForUser testCrypto ?s1 testRng 9 otherWallet 1 None)"
    by (simp only: createWalletForUser_Inr [OF k1] sum.disc simp_thms)
  have second: "map_option sw_address
       (wallets (createdState testCrypto ?s1 testRng 9 otherWallet 1 None) 1) = Some ''0xB2''"
    by (simp only: createdState_Inr [OF k1])
      (simp add: storedWalletOf_def otherWallet_def)
  from first again second show ?thesis
    by (intro conjI)
qed

text \<open>
  C1, amended. For a user who already has a wallet record, a second \<open>createWalletForUser\<close>
  succeeds whenever key derivation does (it always does without a passphrase argument), and
  replaces the record by the one of the newly generated wallet, with its own address, blobs and
  salt; the records of other users and the passphrase table are untouched.
\<close>

theorem createWalletForUser_replaces_existing:
  assumes existing: "wallets s userId = Some old"
      and key: "deriveKey E s userId passphrase = Inr key"
  shows "\<exists>wallet s'.
           createWalletForUser E s g now random userId passphrase = Inr (wallet, s')
         \<and> gw_address wallet = rw_address random
         \<and> gw_privateKey wallet = rw_privateKey random
         \<and> wallets s' userId = Some (storedWalletOf E key g now random userId passphrase)
         \<and> sw_address (storedWalletOf E key g now random userId passphrase) = rw_address random
         \<and> sw_salt (storedWalletOf E key g now random userId passphrase) = toHex (drawn g 0 16)
         \<and> (\<forall>other. other \<noteq> userId \<longrightarrow> wallets s' other = wallets s other)
         \<and> passphrases s' = passphrases s"
  by (simp add: createWalletForUser_Inr [OF key] generateWallet_fields storedWalletOf_def)

theorem createWalletForUser_replaces_existing_witness:
  "wallets (createdState testCrypto newWalletEnhancedService testRng 5 testWallet 1 None) 1
     = Some (storedWalletOf testCrypto (fallbackKey testCrypto 1) testRng 5 testWallet 1 None)
   \<and> deriveKey testCrypto
        (createdState testCrypto newWalletEnhancedService testRng 5 testWallet 1 None) 1 None
       = Inr (fallbackKey testCrypto 1)
   \<and> (\<exists>wallet s'.
         createWalletForUser testCrypto
           (createdState testCrypto newWalletEnhancedService testRng 5 testWallet 1 None)
           testRng 9 otherWallet 1 None = Inr (wallet, s')
       \<and> gw_address wallet = rw_address otherWallet
       \<and> wallets s' 1 =
           Some (storedWalletOf testCrypto (fallbackKey testCrypto 1) testRng 9 otherWallet 1 None))"
proof -
  let ?s1 = "createdState testCrypto newWalletEnhancedService testRng 5 testWallet 1 None"
  have k0: "deriveKey testCrypto newWalletEnhancedService 1 None = Inr (fallbackKey testCrypto 1)"
    by (simp add: deriveKey_fallback truthy_def)
  have existing: "wallets ?s1 1
     = Some (storedWalletOf testCrypto (fallbackKey testCrypto 1) testRng 5 testWallet 1 None)"
    by (simp add: createdState_Inr [OF k0])
  have k1: "deriveKey testCrypto ?s1 1 None = Inr (fallbackKey testCrypto 1)"
    by (simp add: deriveKey_fallback truthy_def)
  show ?thesis
    using createWalletForUser_replaces_existing [OF existing k1, of testRng 9 otherWallet]
      existing k1
    by blast
qed

subsection \<open>The hasPassphrase flag\<close>

text \<open>
  C4 as stated does not hold: the flag is \<open>!!passphrase\<close>, computed from the argument. A user
  with a passphrase record who creates a wallet without a passphrase argument gets
  \<open>hasPassphrase = false\<close> although the record exists at encryption time.
\<close>

theorem hasPassphrase_flag_counterexample:
  "passphrases (setUserPassphrase testCrypto newWalletEnhancedService testRng 3 1 ''hunter22'') 1
     \<noteq> None
   \<and> map_option sw_hasPassphrase
       (wallets (createdState testCrypto
          (setUserPassphrase testCrypto newWalletEnhancedService testRng 3 1 ''hunter22'')
          testRng 5 testWallet 1 None) 1) = Some False"
proof -
  let ?st = "setUserPassphrase testCrypto newWalletEnhancedService testRng 3 1 ''hunter22''"
  have k: "deriveKey testCrypto ?st 1 None = Inr (fallbackKey testCrypto 1)"
    by (simp add: deriveKey_fallback truthy_def)
  show ?thesis
    by (simp add: createdState_Inr [OF k] storedWalletOf_def truthy_def)
      (simp add: setUserPassphrase_def Let_def)
qed

text \<open>
  C4, amended. When the user has a passphrase record, or no passphrase argument is given, a
  successful \<open>createWalletForUser\<close> stores \<open>hasPassphrase\<close> true exactly when a non-empty
  passphrase argument was supplied; and when the flag is true, that passphrase verified
  against the record. (A passphrase argument without a record is the subject of C5.)
\<close>

theorem hasPassphrase_flag_follows_argument:
  assumes created: "createWalletForUser E s g now random userId passphrase = Inr (wallet, s')"
      and by_design: "passphrases s userId \<noteq> None \<or> \<not> truthy passphrase"
  shows "map_option sw_hasPassphrase (wallets s' userId) = Some (truthy passphrase)
       \<and> (truthy passphrase \<longrightarrow>
            (\<exists>pw. passphrase = Some pw \<and> verifyPassphrase E s userId pw = Inr True))"
proof -
  obtain key where key: "deriveKey E s userId passphrase = Inr key"
    using createWalletForUser_succeeds_iff [OF created] by blast
  have "s' = s\<lparr>wallets := (wallets s)(userId \<mapsto>
               storedWalletOf E key g now random userId passphrase)\<rparr>"
    using created by (simp add: createWalletForUser_Inr [OF key])
  then have flag: "map_option sw_hasPassphrase (wallets s' userId) = Some (truthy passphrase)"
    by (simp add: storedWalletOf_def)
  have "\<exists>pw. passphrase = Some pw \<and> verifyPassphrase E s userId pw = Inr True"
    if "truthy passphrase"
    using that by_design key
    by (auto simp: deriveKey_def truthy_def split: option.splits sum.splits if_splits)
  with flag show ?thesis by blast
qed


theorem hasPassphrase_flag_follows_argument_witness:
  "\<exists>wallet s'.
     createWalletForUser testCrypto
       (setUserPassphrase testCrypto newWalletEnhancedService testRng 3 1 ''hunter22'')
       testRng 5 testWallet 1 (Some ''hunter22'') = Inr (wallet, s')
   \<and> passphrases
        (setUserPassphrase testCrypto newWalletEnhancedService testRng 3 1 ''hunter22'') 1
       \<noteq> None
   \<and> map_option sw_hasPassphrase (wallets s' 1) = Some True
   \<and> verifyPassphrase testCrypto
        (setUserPassphrase testCrypto newWalletEnhancedService testRng 3 1 ''hunter22'')
        1 ''hunter22'' = Inr True"
proof -
  let ?st = "setUserPassphrase testCrypto newWalletEnhancedService testRng 3 1 ''hunter22''"
  have key: "deriveKey testCrypto ?st 1 (Some ''hunter22'')
               = Inr (scrypt testCrypto ''hunter22'' (drawn testRng 0 32) 32)"
    by (rule deriveKey_after_setUserPassphrase) simp
  note created = createWalletForUser_Inr [OF key, of testRng 5 testWallet]
  have stored: "passphrases ?st 1 \<noteq> None"
    by (simp add: setUserPassphrase_def Let_def)
  then have by_design: "passphrases ?st 1 \<noteq> None \<or> \<not> truthy (Some ''hunter22'')"
    by blast
  have "truthy (Some ''hunter22'')"
    by (simp add: truthy_def)
  with hasPassphrase_flag_follows_argument [OF created by_design] created stored
  show ?thesis
    by auto
qed

subsection \<open>Reading the mnemonic back\<close>

lemma getMnemonic_after_create:
  assumes rt: "gcmRoundTrip E" and auth: "gcmAuthentic E" and len: "scryptLength E"
      and key: "deriveKey E s userId passphrase = Inr key"
      and salts: "drawn g 32 16 \<noteq> drawn g 0 16"
  shows "getMnemonic E (createdState E s g now random userId passphrase) userId passphrase'
           = None"
proof -
  let ?w = "storedWalletOf E key g now random userId passphrase"
  let ?s' = "s\<lparr>wallets := (wallets s)(userId \<mapsto> ?w)\<rparr>"
  let ?m = "gw_mnemonic (generateWallet random)"
  let ?ct = "fst (gcmEncrypt E key (drawn g 32 16) ?m)"
  let ?tag = "snd (gcmEncrypt E key (drawn g 32 16) ?m)"
  have st: "createdState E s g now random userId passphrase = ?s'"
    by (rule createdState_Inr [OF key])
  have blob: "sw_encryptedMnemonic ?w = toHex (drawn g 48 16 @ ?tag @ ?ct)"
    and salt: "sw_salt ?w = toHex (drawn g 0 16)"
    by (simp_all add: storedWalletOf_def)
  have tag: "length ?tag = 16"
    using rt by (simp add: gcmRoundTrip_def)
  have same: "passphrases ?s' = passphrases s"
    by simp
  have "decryptPrivateKey E ?s' (sw_encryptedMnemonic ?w) (sw_salt ?w) userId passphrase'
          = Inl AuthenticationFailure \<or>
        (\<exists>e. decryptPrivateKey E ?s' (sw_encryptedMnemonic ?w) (sw_salt ?w) userId passphrase'
          = Inl e)"
  proof (cases "deriveKey E ?s' userId passphrase'")
    case (Inl e)
    then show ?thesis
      by (simp add: decryptPrivateKey_Inl)
  next
    case (Inr key')
    then have "deriveKey E s userId passphrase' = Inr key'"
      by (simp only: deriveKey_same_passphrases [OF same])
    then have "length key' = 32"
      by (rule deriveKey_length [OF len])
    moreover have "length key = 32"
      using len key by (rule deriveKey_length)
    ultimately have "gcmDecrypt E key' (drawn g 0 16) ?tag ?ct = None"
      using auth salts by (simp add: gcmAuthentic_def length_drawn)
    then show ?thesis
      unfolding blob salt
      by (simp add: decryptPrivateKey_sealed [OF Inr length_drawn tag])
  qed
  then show ?thesis
    unfolding st by (auto simp: getMnemonic_def)
qed

lemma testRng_salts_differ: "drawn testRng 32 16 \<noteq> drawn testRng 0 16"
  by code_simp

text \<open>
  C3 fails on the code. \<open>createWalletForUser\<close> seals the mnemonic in a second call of
  \<open>encryptPrivateKey\<close>, which draws a salt of its own (\<open>drawn g 32 16\<close>) as associated data,
  but it stores only the salt of the private-key blob (\<open>drawn g 0 16\<close>). \<open>getMnemonic\<close> opens
  the mnemonic blob under the stored salt. Whenever the two draws differ and the cipher
  authenticates its associated data, the tag check fails and \<open>getMnemonic\<close> returns \<open>null\<close>,
  whatever passphrase is supplied; \<open>getPrivateKey\<close> on the same record succeeds (C6).
\<close>

theorem getMnemonic_opens_under_private_key_salt:
  assumes rt: "gcmRoundTrip E" and auth: "gcmAuthentic E" and len: "scryptLength E"
      and created: "createWalletForUser E s g now random userId passphrase = Inr (wallet, s')"
      and salts: "drawn g 32 16 \<noteq> drawn g 0 16"
  shows "map_option sw_salt (wallets s' userId) = Some (toHex (drawn g 0 16))
       \<and> getMnemonic E s' userId passphrase' = None"
proof -
  obtain key where key: "deriveKey E s userId passphrase = Inr key"
    using createWalletForUser_succeeds_iff [OF created] by blast
  have st: "createdState E s g now random userId passphrase = s'"
    using created by (rule createWalletForUser_state)
  have "s' = s\<lparr>wallets := (wallets s)(userId \<mapsto>
               storedWalletOf E key g now random userId passphrase)\<rparr>"
    using created by (simp add: createWalletForUser_Inr [OF key])
  then have "map_option sw_salt (wallets s' userId) = Some (toHex (drawn g 0 16))"
    by (simp add: storedWalletOf_def)
  moreover have "getMnemonic E s' userId passphrase' = None"
    using getMnemonic_after_create [OF rt auth len key salts, of now random passphrase']
    by (simp only: st)
  ultimately show ?thesis
    by blast
qed

theorem getMnemonic_opens_under_private_key_salt_witness:
  "gcmRoundTrip testCrypto \<and> gcmAuthentic testCrypto \<and> scryptLength testCrypto
   \<and> drawn testRng 32 16 \<noteq> drawn testRng 0 16
   \<and> (\<exists>wallet s'.
         createWalletForUser testCrypto newWalletEnhancedService testRng 5 testWallet 1 None
           = Inr (wallet, s')
       \<and> gw_mnemonic wallet = ''abandon ability''
       \<and> getMnemonic testCrypto s' 1 None = None)"
proof -
  have key: "deriveKey testCrypto newWalletEnhancedService 1 None
               = Inr (fallbackKey testCrypto 1)"
    by (simp add: deriveKey_fallback truthy_def)
  note created = createWalletForUser_Inr [OF key, of testRng 5 testWallet]
  have "gw_mnemonic (generateWallet testWallet) = ''abandon ability''"
    by (simp add: generateWallet_def testWallet_def)
  with getMnemonic_opens_under_private_key_salt [OF testCrypto_roundTrip testCrypto_authentic
      testCrypto_scryptLength created testRng_salts_differ, of None] created
    testCrypto_roundTrip testCrypto_authentic testCrypto_scryptLength testRng_salts_differ
  show ?thesis
    by simp
qed

subsection \<open>The passphrase gate of getPrivateKey\<close>

lemma verifyPassphrase_other_hash:
  assumes len: "scryptLength E"
      and differ: "scrypt E wrong (drawn g 0 32) 64 \<noteq> scrypt E pw (drawn g 0 32) 64"
  shows "verifyPassphrase E (setUserPassphrase E s g now userId pw) userId wrong = Inr False"
proof -
  have "length (scrypt E wrong (drawn g 0 32) 64) = length (scrypt E pw (drawn g 0 32) 64)"
    using len by (simp add: scryptLength_def)
  then show ?thesis
    using differ
    by (simp add: verifyPassphrase_def setUserPassphrase_def timingSafeEqual_def Let_def
        fromHex_toHex randomBytes_drawn)
qed

lemma getPrivateKey_rejected_passphrase:
  assumes len: "scryptLength E"
      and pw: "pw \<noteq> []" and wrong: "wrong \<noteq> []"
      and differ: "scrypt E wrong (drawn g1 0 32) 64 \<noteq> scrypt E pw (drawn g1 0 32) 64"
  shows "deriveKey E (createdState E (setUserPassphrase E s g1 t1 userId pw) g2 t2 random userId
            (Some pw)) userId (Some wrong) = Inl InvalidPassphrase"
    and "getPrivateKey E (createdState E (setUserPassphrase E s g1 t1 userId pw) g2 t2 random
            userId (Some pw)) userId (Some wrong) = None"
proof -
  let ?s1 = "setUserPassphrase E s g1 t1 userId pw"
  let ?key = "scrypt E pw (drawn g1 0 32) 32"
  let ?w = "storedWalletOf E ?key g2 t2 random userId (Some pw)"
  let ?s2 = "?s1\<lparr>wallets := (wallets ?s1)(userId \<mapsto> ?w)\<rparr>"
  have key: "deriveKey E ?s1 userId (Some pw) = Inr ?key"
    using pw by (rule deriveKey_after_setUserPassphrase)
  have st: "createdState E ?s1 g2 t2 random userId (Some pw) = ?s2"
    by (rule createdState_Inr [OF key])
  have same: "passphrases ?s2 = passphrases ?s1"
    by simp
  have "passphrases ?s1 userId \<noteq> None"
    by (simp add: setUserPassphrase_def Let_def)
  then have "deriveKey E ?s1 userId (Some wrong) = Inl InvalidPassphrase"
    using wrong verifyPassphrase_other_hash [OF len differ, of s t1 userId]
    by (auto simp: deriveKey_def)
  then have rejected: "deriveKey E ?s2 userId (Some wrong) = Inl InvalidPassphrase"
    by (simp only: deriveKey_same_passphrases [OF same])
  show "deriveKey E (createdState E ?s1 g2 t2 random userId (Some pw)) userId (Some wrong)
          = Inl InvalidPassphrase"
    unfolding st by (rule rejected)
  show "getPrivateKey E (createdState E ?s1 g2 t2 random userId (Some pw)) userId (Some wrong)
          = None"
    unfolding st
    by (simp add: getPrivateKey_def decryptPrivateKey_Inl [OF rejected])
qed

lemma getPrivateKey_missing_passphrase:
  assumes rt: "gcmRoundTrip E" and auth: "gcmAuthentic E" and len: "scryptLength E"
      and pw: "pw \<noteq> []"
      and other: "fallbackKey E userId \<noteq> scrypt E pw (drawn g1 0 32) 32"
  shows "decryptPrivateKey E
           (createdState E (setUserPassphrase E s g1 t1 userId pw) g2 t2 random userId (Some pw))
           (sw_encryptedPrivateKey
              (storedWalletOf E (scrypt E pw (drawn g1 0 32) 32) g2 t2 random userId (Some pw)))
           (sw_salt
              (storedWalletOf E (scrypt E pw (drawn g1 0 32) 32) g2 t2 random userId (Some pw)))
           userId None = Inl AuthenticationFailure"
    and "getPrivateKey E (createdState E (setUserPassphrase E s g1 t1 userId pw) g2 t2 random
            userId (Some pw)) userId None = None"
proof -
  let ?s1 = "setUserPassphrase E s g1 t1 userId pw"
  let ?key = "scrypt E pw (drawn g1 0 32) 32"
  let ?w = "storedWalletOf E ?key g2 t2 random userId (Some pw)"
  let ?s2 = "?s1\<lparr>wallets := (wallets ?s1)(userId \<mapsto> ?w)\<rparr>"
  let ?ct = "fst (gcmEncrypt E ?key (drawn g2 0 16) (rw_privateKey random))"
  let ?tag = "snd (gcmEncrypt E ?key (drawn g2 0 16) (rw_privateKey random))"
  have key: "deriveKey E ?s1 userId (Some pw) = Inr ?key"
    using pw by (rule deriveKey_after_setUserPassphrase)
  have st: "createdState E ?s1 g2 t2 random userId (Some pw) = ?s2"
    by (rule createdState_Inr [OF key])
  have fb: "deriveKey E ?s2 userId None = Inr (fallbackKey E userId)"
    by (simp add: deriveKey_fallback truthy_def)
  have blob: "sw_encryptedPrivateKey ?w = toHex (drawn g2 16 16 @ ?tag @ ?ct)"
    and salt: "sw_salt ?w = toHex (drawn g2 0 16)"
    by (simp_all add: storedWalletOf_def)
  have tag: "length ?tag = 16"
    using rt by (simp add: gcmRoundTrip_def)
  have "length (fallbackKey E userId) = length ?key"
    using len by (simp add: scryptLength_def fallbackKey_def Let_def kdfParams_def)
  then have "gcmDecrypt E (fallbackKey E userId) (drawn g2 0 16) ?tag ?ct = None"
    using auth other by (simp add: gcmAuthentic_def)
  then have failed: "decryptPrivateKey E ?s2 (sw_encryptedPrivateKey ?w) (sw_salt ?w) userId None
          = Inl AuthenticationFailure"
    unfolding blob salt
    by (simp add: decryptPrivateKey_sealed [OF fb length_drawn tag])
  show "decryptPrivateKey E (createdState E ?s1 g2 t2 random userId (Some pw))
          (sw_encryptedPrivateKey ?w) (sw_salt ?w) userId None = Inl AuthenticationFailure"
    unfolding st by (rule failed)
  show "getPrivateKey E (createdState E ?s1 g2 t2 random userId (Some pw)) userId None = None"
    unfolding st
    by (simp add: getPrivateKey_def failed)
qed

lemma wallet_after_set_and_create:
  assumes pw: "pw \<noteq> []"
  shows "wallets (createdState E (setUserPassphrase E s g1 t1 userId pw) g2 t2 random userId
            (Some pw)) userId
         = Some (storedWalletOf E (scrypt E pw (drawn g1 0 32) 32) g2 t2 random userId (Some pw))"
  by (simp add: createdState_Inr [OF deriveKey_after_setUserPassphrase [OF pw]])

lemma getPrivateKey_correct_passphrase:
  assumes rt: "gcmRoundTrip E" and pw: "pw \<noteq> []"
  shows "getPrivateKey E (createdState E (setUserPassphrase E s g1 t1 userId pw) g2 t2 random
            userId (Some pw)) userId (Some pw) = Some (rw_privateKey random)"
  using rt deriveKey_after_setUserPassphrase [OF pw] deriveKey_after_setUserPassphrase [OF pw]
  by (rule getPrivateKey_after_create)

lemma test_hashes_differ:
  "scrypt testCrypto ''letmein1'' (drawn testRng 0 32) 64
     \<noteq> scrypt testCrypto ''hunter22'' (drawn testRng 0 32) 64"
  by code_simp

lemma test_keys_differ:
  "fallbackKey testCrypto 1 \<noteq> scrypt testCrypto ''hunter22'' (drawn testRng 0 32) 32"
  by code_simp

text \<open>
  C2 as stated does not hold: \<open>getPrivateKey\<close> has no typed failure. For a wallet created
  under a set passphrase, a wrong passphrase and a missing passphrase both give \<open>null\<close>, the
  very value returned for a user without a wallet; and the error behind the missing
  passphrase is the cipher's authentication failure under the fallback key, not
  "Invalid passphrase".
\<close>

theorem getPrivateKey_untyped_failure_counterexample:
  "map_option sw_hasPassphrase
     (wallets (createdState testCrypto
        (setUserPassphrase testCrypto newWalletEnhancedService testRng 3 1 ''hunter22'')
        testRng 5 testWallet 1 (Some ''hunter22'')) 1) = Some True
   \<and> getPrivateKey testCrypto
        (createdState testCrypto
           (setUserPassphrase testCrypto newWalletEnhancedService testRng 3 1 ''hunter22'')
           testRng 5 testWallet 1 (Some ''hunter22''))
        1 (Some ''letmein1'')
     = getPrivateKey testCrypto newWalletEnhancedService 1 (Some ''letmein1'')
   \<and> getPrivateKey testCrypto
        (createdState testCrypto
           (setUserPassphrase testCrypto newWalletEnhancedService testRng 3 1 ''hunter22'')
           testRng 5 testWallet 1 (Some ''hunter22''))
        1 None
     = getPrivateKey testCrypto newWalletEnhancedService 1 None
   \<and> decryptPrivateKey testCrypto
        (createdState testCrypto
           (setUserPassphrase testCrypto newWalletEnhancedService testRng 3 1 ''hunter22'')
           testRng 5 testWallet 1 (Some ''hunter22''))
        (sw_encryptedPrivateKey (storedWalletOf testCrypto
           (scrypt testCrypto ''hunter22'' (drawn testRng 0 32) 32) testRng 5 testWallet 1
           (Some ''hunter22'')))
        (sw_salt (storedWalletOf testCrypto
           (scrypt testCrypto ''hunter22'' (drawn testRng 0 32) 32) testRng 5 testWallet 1
           (Some ''hunter22'')))
        1 None = Inl AuthenticationFailure"
proof -
  have pw: "''hunter22'' \<noteq> []" and wrong: "''letmein1'' \<noteq> []"
    by simp_all
  have none: "getPrivateKey testCrypto newWalletEnhancedService 1 passphrase = None"
    for passphrase
    by (simp add: getPrivateKey_def newWalletEnhancedService_def)
  have flag: "sw_hasPassphrase (storedWalletOf testCrypto
           (scrypt testCrypto ''hunter22'' (drawn testRng 0 32) 32) testRng 5 testWallet 1
           (Some ''hunter22''))"
    by (simp add: storedWalletOf_def truthy_def)
  show ?thesis
    using wallet_after_set_and_create [OF pw, of testCrypto newWalletEnhancedService testRng 3 1
        testRng 5 testWallet]
      getPrivateKey_rejected_passphrase(2) [OF testCrypto_scryptLength pw wrong
        test_hashes_differ, of newWalletEnhancedService 3 1 testRng 5 testWallet]
      getPrivateKey_missing_passphrase [OF testCrypto_roundTrip testCrypto_authentic
        testCrypto_scryptLength pw test_keys_differ, of newWalletEnhancedService 3 testRng 5
        testWallet]
      none flag
    by simp
qed

text \<open>
  C2, amended. Let the user set a non-empty passphrase \<open>pw\<close> with \<open>setUserPassphrase\<close> and
  then create the wallet with \<open>pw\<close>. The record has \<open>hasPassphrase = true\<close>, and
  \<^item> \<open>getPrivateKey\<close> with \<open>pw\<close> returns exactly the generated private key;
  \<^item> with a non-empty passphrase whose hash under the stored salt differs, \<open>deriveKey\<close> throws
    "Invalid passphrase" and \<open>getPrivateKey\<close> returns \<open>null\<close>;
  \<^item> with no passphrase, the blob is opened under the fallback key, the tag check fails
    (the fallback key being another key), and \<open>getPrivateKey\<close> returns \<open>null\<close>.
  The assumptions are those on the primitives: the cipher opens what it sealed and rejects
  another key, and \<open>scrypt\<close> returns the length asked for.
\<close>

theorem getPrivateKey_passphrase_gate:
  fixes E :: crypto and s :: WalletEnhancedService and g1 g2 :: rng and t1 t2 userId :: int
    and pw :: string and random :: RandomWallet
  defines "s2 \<equiv> createdState E (setUserPassphrase E s g1 t1 userId pw) g2 t2 random userId
                   (Some pw)"
  defines "stored \<equiv> storedWalletOf E (scrypt E pw (drawn g1 0 32) 32) g2 t2 random userId
                       (Some pw)"
  assumes rt: "gcmRoundTrip E" and auth: "gcmAuthentic E" and len: "scryptLength E"
      and pw: "pw \<noteq> []" and wrong: "wrong \<noteq> []"
      and differ: "scrypt E wrong (drawn g1 0 32) 64 \<noteq> scrypt E pw (drawn g1 0 32) 64"
      and other: "fallbackKey E userId \<noteq> scrypt E pw (drawn g1 0 32) 32"
  shows "wallets s2 userId = Some stored \<and> sw_hasPassphrase stored
       \<and> getPrivateKey E s2 userId (Some pw) = Some (rw_privateKey random)
       \<and> deriveKey E s2 userId (Some wrong) = Inl InvalidPassphrase
       \<and> getPrivateKey E s2 userId (Some wrong) = None
       \<and> decryptPrivateKey E s2 (sw_encryptedPrivateKey stored) (sw_salt stored) userId None
           = Inl AuthenticationFailure
       \<and> getPrivateKey E s2 userId None = None"
proof -
  have "sw_hasPassphrase stored"
    using pw by (simp add: stored_def storedWalletOf_def truthy_def)
  then show ?thesis
    unfolding s2_def stored_def
    using wallet_after_set_and_create [OF pw]
      getPrivateKey_correct_passphrase [OF rt pw]
      getPrivateKey_rejected_passphrase [OF len pw wrong differ]
      getPrivateKey_missing_passphrase [OF rt auth len pw other]
    by simp
qed

theorem getPrivateKey_passphrase_gate_witness:
  "gcmRoundTrip testCrypto \<and> gcmAuthentic testCrypto \<and> scryptLength testCrypto
   \<and> ''hunter22'' \<noteq> [] \<and> ''letmein1'' \<noteq> []
   \<and> scrypt testCrypto ''letmein1'' (drawn testRng 0 32) 64
       \<noteq> scrypt testCrypto ''hunter22'' (drawn testRng 0 32) 64
   \<and> fallbackKey testCrypto 1 \<noteq> scrypt testCrypto ''hunter22'' (drawn testRng 0 32) 32
   \<and> getPrivateKey testCrypto
        (createdState testCrypto
           (setUserPassphrase testCrypto newWalletEnhancedService testRng 3 1 ''hunter22'')
           testRng 5 testWallet 1 (Some ''hunter22''))
        1 (Some ''hunter22'') = Some (rw_privateKey testWallet)
   \<and> getPrivateKey testCrypto
        (createdState testCrypto
           (setUserPassphrase testCrypto newWalletEnhancedService testRng 3 1 ''hunter22'')
           testRng 5 testWallet 1 (Some ''hunter22''))
        1 (Some ''letmein1'') = None
   \<and> getPrivateKey testCrypto
        (createdState testCrypto
           (setUserPassphrase testCrypto newWalletEnhancedService testRng 3 1 ''hunter22'')
           testRng 5 testWallet 1 (Some ''hunter22''))
        1 None = None"
proof -
  have pw: "''hunter22'' \<noteq> []" and wrong: "''letmein1'' \<noteq> []"
    by simp_all
  show ?thesis
    using getPrivateKey_passphrase_gate [OF testCrypto_roundTrip testCrypto_authentic
        testCrypto_scryptLength pw wrong test_hashes_differ test_keys_differ,
        of newWalletEnhancedService 3 testRng 5 testWallet]
      testCrypto_roundTrip testCrypto_authentic testCrypto_scryptLength
      test_hashes_differ test_keys_differ
    by simp
qed

end
